theory Spec2Isabelle
  imports Complex_Main "HOL-Library.Char_ord" "HOL-Library.List_Lexorder"
begin

section \<open>Alert engine (alerts.py)\<close>

text \<open>
  Python truthiness of an optional string: \<open>None\<close> and the empty string are falsy.
  The source tests \<open>alert['symbol'] and symbol and ...\<close> and \<open>symbol or alert['symbol']\<close>.
\<close>

definition truthy :: "string option \<Rightarrow> bool" where
  "truthy s = (case s of None \<Rightarrow> False | Some v \<Rightarrow> v \<noteq> [])"

text \<open>
  What calling a predicate and testing its result in \<open>if alert['condition_func'](data):\<close>
  can do: raise an \<open>Exception\<close>, or yield a value that is truthy or falsy.
\<close>

datatype outcome = Raises | Returns bool

record 'd alert =
  name :: string
  condition_func :: "'d \<Rightarrow> outcome"
  alert_symbol :: "string option"
  active :: bool

record triggered_alert =
  trig_name :: string
  trig_symbol :: "string option"
  trig_timestamp :: int

record 'd alert_system =
  alerts :: "'d alert list"
  alert_history :: "triggered_alert list"

definition init_alert_system :: "'d alert_system" where
  "init_alert_system = \<lparr>alerts = [], alert_history = []\<rparr>"

definition add_alert ::
  "string \<Rightarrow> ('d \<Rightarrow> outcome) \<Rightarrow> string option \<Rightarrow> 'd alert_system \<Rightarrow> 'd alert_system" where
  "add_alert n f smb st =
     st\<lparr>alerts := alerts st @
        [\<lparr>name = n, condition_func = f, alert_symbol = smb, active = True\<rparr>]\<rparr>"

definition remove_alert :: "string \<Rightarrow> 'd alert_system \<Rightarrow> 'd alert_system" where
  "remove_alert n st = st\<lparr>alerts := filter (\<lambda>a. name a \<noteq> n) (alerts st)\<rparr>"

text \<open>
  The loops of \<open>activate_alert\<close> and \<open>deactivate_alert\<close>: assign the flag of the first
  alert whose name matches, then \<open>break\<close>.
\<close>

fun set_first_active :: "bool \<Rightarrow> string \<Rightarrow> 'd alert list \<Rightarrow> 'd alert list" where
  "set_first_active b n [] = []"
| "set_first_active b n (a # as) =
     (if name a = n then a\<lparr>active := b\<rparr> # as else a # set_first_active b n as)"

definition activate_alert :: "string \<Rightarrow> 'd alert_system \<Rightarrow> 'd alert_system" where
  "activate_alert n st = st\<lparr>alerts := set_first_active True n (alerts st)\<rparr>"

definition deactivate_alert :: "string \<Rightarrow> 'd alert_system \<Rightarrow> 'd alert_system" where
  "deactivate_alert n st = st\<lparr>alerts := set_first_active False n (alerts st)\<rparr>"

definition get_active_alerts :: "'d alert_system \<Rightarrow> 'd alert list" where
  "get_active_alerts st = filter active (alerts st)"

text \<open>
  The loop of \<open>check_alerts\<close>. The accumulator is the pair of the call's result list and the
  history. \<open>now k\<close> is what \<open>pd.Timestamp.now()\<close> returns at the \<open>k\<close>-th trigger of the call.
  The \<open>except Exception\<close> branch only prints, so a raising predicate leaves both lists as
  they are and the loop goes on.
\<close>

fun check_loop ::
  "(nat \<Rightarrow> int) \<Rightarrow> 'd \<Rightarrow> string option \<Rightarrow> 'd alert list \<Rightarrow>
   triggered_alert list \<times> triggered_alert list \<Rightarrow> triggered_alert list \<times> triggered_alert list" where
  "check_loop now data smb [] acc = acc"
| "check_loop now data smb (a # as) (trig, hist) =
     (if \<not> active a then check_loop now data smb as (trig, hist)
      else if truthy (alert_symbol a) \<and> truthy smb \<and> alert_symbol a \<noteq> smb
        then check_loop now data smb as (trig, hist)
      else (case condition_func a data of
              Returns True \<Rightarrow>
                (let t = \<lparr>trig_name = name a,
                          trig_symbol = (if truthy smb then smb else alert_symbol a),
                          trig_timestamp = now (length trig)\<rparr>
                 in check_loop now data smb as (trig @ [t], hist @ [t]))
            | Returns False \<Rightarrow> check_loop now data smb as (trig, hist)
            | Raises \<Rightarrow> check_loop now data smb as (trig, hist)))"

definition check_alerts ::
  "(nat \<Rightarrow> int) \<Rightarrow> 'd \<Rightarrow> string option \<Rightarrow> 'd alert_system \<Rightarrow>
   triggered_alert list \<times> 'd alert_system" where
  "check_alerts now data smb st =
     (case check_loop now data smb (alerts st) ([], alert_history st) of
        (trig, hist) \<Rightarrow> (trig, st\<lparr>alert_history := hist\<rparr>))"

definition get_alert_history :: "'d alert_system \<Rightarrow> triggered_alert list" where
  "get_alert_history st = alert_history st"

text \<open>
  What the specification asks of an evaluation, to compare \<open>check_loop\<close> with: an alert
  fires when it is active, its symbol filter does not exclude the symbol of the call and its
  predicate returns a truthy value. A predicate that raises does not fire. The triggered
  alerts are those of the firing alerts, in the order of the registry, the \<open>i\<close>-th one
  stamped with the \<open>i\<close>-th reading of the clock.
\<close>

definition fires :: "'d \<Rightarrow> string option \<Rightarrow> 'd alert \<Rightarrow> bool" where
  "fires data smb a =
     (active a \<and> \<not> (truthy (alert_symbol a) \<and> truthy smb \<and> alert_symbol a \<noteq> smb)
      \<and> condition_func a data = Returns True)"

definition spec_triggered ::
  "(nat \<Rightarrow> int) \<Rightarrow> 'd \<Rightarrow> string option \<Rightarrow> nat \<Rightarrow> 'd alert list \<Rightarrow> triggered_alert list" where
  "spec_triggered now data smb k as =
     map (\<lambda>(i, a). \<lparr>trig_name = name a,
                     trig_symbol = (if truthy smb then smb else alert_symbol a),
                     trig_timestamp = now i\<rparr>)
         (enumerate k (filter (fires data smb) as))"

section \<open>Aggregation store (storage.py)\<close>

text \<open>
  A tick is one row of the \<open>tick_data\<close> frame, a bar one row of a resampled frame.
  Timestamps are \<open>pd.Timestamp\<close> values, integers counting nanoseconds. Prices and
  quantities are idealised as real numbers; a missing value (NaN) of a bar is \<open>None\<close>.
\<close>

record tick =
  timestamp :: int
  symbol :: string
  price :: real
  quantity :: real

record bar =
  bar_timestamp :: int
  bar_symbol :: string
  bar_open :: "real option"
  bar_high :: "real option"
  bar_low :: "real option"
  bar_close :: "real option"
  bar_volume :: real

datatype timeframe = TF_1s | TF_1min | TF_5min

text \<open>The resampling rules \<open>'1s'\<close>, \<open>'1min'\<close>, \<open>'5min'\<close> as bucket widths in nanoseconds.\<close>

fun rule_ns :: "timeframe \<Rightarrow> int" where
  "rule_ns TF_1s = 1000000000"
| "rule_ns TF_1min = 60000000000"
| "rule_ns TF_5min = 300000000000"

text \<open>\<open>conn\<close> tells whether a SQLite connection (the durable sink) was configured.\<close>

record store =
  tick_data :: "tick list"
  resampled_data :: "timeframe \<Rightarrow> bar list"
  conn :: bool
  last_resample :: "timeframe \<Rightarrow> int"

definition init_store :: "bool \<Rightarrow> int \<Rightarrow> store" where
  "init_store has_db now =
     \<lparr>tick_data = [], resampled_data = (\<lambda>_. []), conn = has_db, last_resample = (\<lambda>_. now)\<rparr>"

datatype error = SinkWriteFailure

text \<open>\<open>DataFrame.tail(n)\<close>: the last \<open>n\<close> rows, all of them when there are fewer.\<close>

definition tail_rows :: "nat \<Rightarrow> 'a list \<Rightarrow> 'a list" where
  "tail_rows n xs = drop (length xs - n) xs"

text \<open>
  \<open>add_tick\<close>: append, trim, then write to the sink when one is configured. The call of
  \<open>to_sql\<close> is not inside any \<open>try\<close>, so when the write fails (\<open>sink_fails\<close>) the
  exception leaves \<open>add_tick\<close>; the assignments to \<open>self.tick_data\<close> before it stay.
\<close>

definition add_tick :: "bool \<Rightarrow> tick \<Rightarrow> store \<Rightarrow> (error + unit) \<times> store" where
  "add_tick sink_fails tk s =
     (let td = tick_data s @ [tk];
          td' = (if length td > 10000 then tail_rows 5000 td else td);
          s' = s\<lparr>tick_data := td'\<rparr>
      in if conn s \<and> sink_fails then (Inl SinkWriteFailure, s') else (Inr (), s'))"

definition bucket_start :: "int \<Rightarrow> int \<Rightarrow> int" where
  "bucket_start d t = (t div d) * d"

text \<open>The aggregations \<open>first\<close>, \<open>max\<close>, \<open>min\<close>, \<open>last\<close> (NaN on an empty bin) and \<open>sum\<close>.\<close>

definition agg_first :: "real list \<Rightarrow> real option" where
  "agg_first ps = (case ps of [] \<Rightarrow> None | p # _ \<Rightarrow> Some p)"

definition agg_max :: "real list \<Rightarrow> real option" where
  "agg_max ps = (case ps of [] \<Rightarrow> None | p # r \<Rightarrow> Some (fold max r p))"

definition agg_min :: "real list \<Rightarrow> real option" where
  "agg_min ps = (case ps of [] \<Rightarrow> None | p # r \<Rightarrow> Some (fold min r p))"

definition agg_last :: "real list \<Rightarrow> real option" where
  "agg_last ps = (case ps of [] \<Rightarrow> None | _ # _ \<Rightarrow> Some (last ps))"

definition ohlcv :: "string \<Rightarrow> int \<Rightarrow> tick list \<Rightarrow> bar" where
  "ohlcv g b ts =
     \<lparr>bar_timestamp = b, bar_symbol = g,
      bar_open = agg_first (map price ts), bar_high = agg_max (map price ts),
      bar_low = agg_min (map price ts), bar_close = agg_last (map price ts),
      bar_volume = sum_list (map quantity ts)\<rparr>"

text \<open>
  \<open>groupby('symbol')[...].resample(rule)\<close> for one symbol \<open>g\<close> and bucket width \<open>d\<close>:
  the rows of the group are put in timestamp order (a stable sort, rows with equal
  timestamps keep their order), the bins run from the bucket of the earliest row to the
  bucket of the latest one in steps of \<open>d\<close>, and every bin of that range gives a row,
  also a bin that no tick falls into.
\<close>

definition resample_group :: "int \<Rightarrow> string \<Rightarrow> tick list \<Rightarrow> bar list" where
  "resample_group d g td =
     (let grp = sort_key timestamp (filter (\<lambda>t. symbol t = g) td)
      in if grp = [] then []
         else (let b0 = bucket_start d (timestamp (hd grp));
                   bl = bucket_start d (timestamp (last grp))
               in map (\<lambda>k. ohlcv g (b0 + int k * d)
                              (filter (\<lambda>t. bucket_start d (timestamp t) = b0 + int k * d) grp))
                      [0 ..< nat ((bl - b0) div d) + 1]))"

text \<open>
  The merged frame \<open>resampled_df\<close>: group keys in sorted order, and the bins of each
  group in time order.
\<close>

definition resample_frame :: "int \<Rightarrow> tick list \<Rightarrow> bar list" where
  "resample_frame d td =
     concat (map (\<lambda>g. resample_group d g td) (sort (remdups (map symbol td))))"


definition bar_key :: "bar \<Rightarrow> int \<times> string" where
  "bar_key b = (bar_timestamp b, bar_symbol b)"

text \<open>\<open>drop_duplicates(subset=['timestamp', 'symbol'], keep='last')\<close>.\<close>

fun drop_duplicates_last :: "bar list \<Rightarrow> bar list" where
  "drop_duplicates_last [] = []"
| "drop_duplicates_last (x # xs) =
     (if bar_key x \<in> set (map bar_key xs) then drop_duplicates_last xs
      else x # drop_duplicates_last xs)"

definition merge_series :: "bar list \<Rightarrow> bar list \<Rightarrow> bar list" where
  "merge_series stored new =
     (if stored = [] then new else drop_duplicates_last (stored @ new))"

definition trim_series :: "bar list \<Rightarrow> bar list" where
  "trim_series xs = (if length xs > 2000 then tail_rows 1000 xs else xs)"

text \<open>
  One turn of the loop over the timeframes. The second component collects the
  timeframes for which \<open>Error resampling ...\<close> was printed: the sink write is inside the
  \<open>try\<close>, after the assignments to \<open>self.resampled_data\<close>.
\<close>

definition resample_timeframe ::
  "(timeframe \<Rightarrow> bool) \<Rightarrow> tick list \<Rightarrow> timeframe \<Rightarrow> store \<times> timeframe list \<Rightarrow>
   store \<times> timeframe list" where
  "resample_timeframe sink_fails td tf acc =
     (case acc of (s, lg) \<Rightarrow>
        (let new = resample_frame (rule_ns tf) td
         in if td = [] \<or> new = [] then (s, lg)
            else (s\<lparr>resampled_data :=
                      (resampled_data s)(tf := trim_series (merge_series (resampled_data s tf) new))\<rparr>,
                  if conn s \<and> sink_fails tf then lg @ [tf] else lg)))"

text \<open>The working copy of the tick frame, restricted to \<open>symbol\<close> when one is given.\<close>

definition select_ticks :: "string option \<Rightarrow> tick list \<Rightarrow> tick list" where
  "select_ticks smb td =
     (if truthy smb then filter (\<lambda>t. Some (symbol t) = smb) td else td)"

definition resample_data ::
  "(timeframe \<Rightarrow> bool) \<Rightarrow> int \<Rightarrow> string option \<Rightarrow> store \<Rightarrow> store \<times> timeframe list" where
  "resample_data sink_fails now smb s =
     (let td = select_ticks smb (tick_data s)
      in if td = [] then (s, [])
         else (case fold (resample_timeframe sink_fails td) [TF_1s, TF_1min, TF_5min] (s, []) of
                 (s', lg) \<Rightarrow> (s'\<lparr>last_resample := (\<lambda>_. now)\<rparr>, lg)))"

text \<open>
  The states of a store that calls of \<open>add_tick\<close> and \<open>resample_data\<close> can reach from a
  fresh one, whatever the sink does and whether or not \<open>add_tick\<close> returns normally.
\<close>

inductive reachable :: "store \<Rightarrow> bool" where
  reach_init: "reachable (init_store has_db now)"
| reach_add_tick: "reachable s \<Longrightarrow> reachable (snd (add_tick sink_fails tk s))"
| reach_resample: "reachable s \<Longrightarrow> reachable (fst (resample_data sink_fails now smb s))"

section \<open>Statistics engine (analytics.py)\<close>

text \<open>
  A \<open>pd.Series\<close> is a list of index labels with values, NaN being \<open>None\<close>; labels are
  taken to be unique within a series. Floating-point numbers are idealised as reals.
\<close>

type_synonym series = "(int \<times> real option) list"

definition lookup :: "series \<Rightarrow> int \<Rightarrow> real option" where
  "lookup s i = (case map_of s i of None \<Rightarrow> None | Some v \<Rightarrow> v)"

text \<open>
  \<open>pd.DataFrame({'asset1': s1, 'asset2': s2})\<close>: the index is the common one when both
  series carry the same index, else the sorted union of the two.
\<close>

definition frame_index :: "series \<Rightarrow> series \<Rightarrow> int list" where
  "frame_index s1 s2 =
     (if map fst s1 = map fst s2 then map fst s1
      else sort (remdups (map fst s1 @ map fst s2)))"

text \<open>\<open>.dropna()\<close> keeps the rows in which both columns hold a number.\<close>

definition aligned_dropna :: "series \<Rightarrow> series \<Rightarrow> (int \<times> real \<times> real) list" where
  "aligned_dropna s1 s2 =
     List.map_filter
       (\<lambda>i. case lookup s1 i of None \<Rightarrow> None
             | Some a \<Rightarrow> (case lookup s2 i of None \<Rightarrow> None | Some b \<Rightarrow> Some (i, a, b)))
       (frame_index s1 s2)"

definition mean :: "real list \<Rightarrow> real" where
  "mean xs = sum_list xs / real (length xs)"

definition sum_sq_dev :: "real list \<Rightarrow> real" where
  "sum_sq_dev xs = sum_list (map (\<lambda>x. (x - mean xs) * (x - mean xs)) xs)"

definition sum_cross_dev :: "real list \<Rightarrow> real list \<Rightarrow> real" where
  "sum_cross_dev xs ys =
     sum_list (map (\<lambda>(x, y). (x - mean xs) * (y - mean ys)) (zip xs ys))"

text \<open>\<open>np.cov(x, y)[0, 1]\<close>: the default normalisation is by \<open>N - 1\<close>.\<close>

definition np_cov :: "real list \<Rightarrow> real list \<Rightarrow> real" where
  "np_cov xs ys = sum_cross_dev xs ys / (real (length xs) - 1)"

text \<open>\<open>np.var(x)\<close>: the default \<open>ddof=0\<close> normalises by \<open>N\<close>.\<close>

definition np_var :: "real list \<Rightarrow> real" where
  "np_var xs = sum_sq_dev xs / real (length xs)"

text \<open>
  The \<open>asset2\<close> coefficient of \<open>OLS(y, X).fit()\<close> with the design matrix of a constant
  column and the column \<open>bs\<close>. The default fit multiplies \<open>y\<close> with the Moore-Penrose
  pseudo-inverse of \<open>X\<close>: the least-squares slope when \<open>bs\<close> is not constant, and for a
  constant column \<open>c\<close> the solution of least norm, whose slope is
  \<open>mean y * c / (1 + c\<^sup>2)\<close>. A singular design does not make the fit raise.
\<close>

definition ols_slope :: "real list \<Rightarrow> real list \<Rightarrow> real" where
  "ols_slope ys bs =
     (if sum_sq_dev bs \<noteq> 0 then sum_cross_dev ys bs / sum_sq_dev bs
      else (case bs of [] \<Rightarrow> 0 | c # _ \<Rightarrow> mean ys * c / (1 + c * c)))"

text \<open>The inner \<open>try\<close> of \<open>calculate_hedge_ratio\<close>, reached when the OLS fit raised.\<close>

definition hedge_fallback :: "real list \<Rightarrow> real list \<Rightarrow> real" where
  "hedge_fallback ys bs = (if np_var bs \<noteq> 0 then np_cov ys bs / np_var bs else 0)"

text \<open>
  \<open>calculate_hedge_ratio\<close>; \<open>ols_raises\<close> tells whether the code in the outer \<open>try\<close>
  raised, which sends the call to the fallback.
\<close>

definition calculate_hedge_ratio :: "bool \<Rightarrow> series \<Rightarrow> series \<Rightarrow> real" where
  "calculate_hedge_ratio ols_raises asset1_prices asset2_prices =
     (let df = aligned_dropna asset1_prices asset2_prices;
          ys = map (\<lambda>(i, a, b). a) df;
          bs = map (\<lambda>(i, a, b). b) df
      in if length df < 2 then 0
         else if \<not> ols_raises then ols_slope ys bs
         else hedge_fallback ys bs)"

text \<open>
  \<open>series.rolling(window=w)\<close> at position \<open>i\<close>: with the default \<open>min_periods = w\<close> the
  result is NaN unless the window holds \<open>w\<close> numbers.
\<close>

definition window_values :: "nat \<Rightarrow> real option list \<Rightarrow> nat \<Rightarrow> real list option" where
  "window_values w vs i =
     (if i + 1 < w then None
      else (let ws = take w (drop (i + 1 - w) vs)
            in if list_all (\<lambda>v. v \<noteq> None) ws then Some (List.map_filter id ws) else None))"

definition rolling_mean :: "nat \<Rightarrow> real option list \<Rightarrow> nat \<Rightarrow> real option" where
  "rolling_mean w vs i = (case window_values w vs i of None \<Rightarrow> None | Some xs \<Rightarrow> Some (mean xs))"

text \<open>\<open>.std()\<close> of a rolling window has \<open>ddof=1\<close>: NaN for a window of one value.\<close>

definition rolling_std :: "nat \<Rightarrow> real option list \<Rightarrow> nat \<Rightarrow> real option" where
  "rolling_std w vs i =
     (case window_values w vs i of None \<Rightarrow> None
      | Some xs \<Rightarrow> if w < 2 then None else Some (sqrt (sum_sq_dev xs / (real w - 1))))"

text \<open>\<open>rolling_std.replace(0, np.nan)\<close>.\<close>

definition replace_zero :: "real option \<Rightarrow> real option" where
  "replace_zero v = (if v = Some 0 then None else v)"

definition zscore_at :: "nat \<Rightarrow> real option list \<Rightarrow> nat \<Rightarrow> real option" where
  "zscore_at w vs i =
     (case vs ! i of None \<Rightarrow> None
      | Some x \<Rightarrow> (case rolling_mean w vs i of None \<Rightarrow> None
          | Some m \<Rightarrow> (case replace_zero (rolling_std w vs i) of None \<Rightarrow> None
              | Some sd \<Rightarrow> Some ((x - m) / sd))))"

definition calculate_zscore :: "series \<Rightarrow> int \<Rightarrow> series" where
  "calculate_zscore s window =
     (if int (length s) < window \<or> window \<le> 0 then map (\<lambda>(l, v). (l, None)) s
      else map (\<lambda>i. (fst (s ! i), zscore_at (nat window) (map snd s) i)) [0 ..< length s])"

section \<open>The alert registry and its evaluation\<close>

lemma check_loop_append:
  "check_loop now data smb (xs @ ys) acc =
   check_loop now data smb ys (check_loop now data smb xs acc)"
proof (induction xs arbitrary: acc)
  case Nil
  show ?case by simp
next
  case (Cons a xs)
  obtain trig hist where acc: "acc = (trig, hist)" by (cases acc)
  show ?case
    unfolding acc using Cons.IH
    by (simp add: Let_def split: outcome.split bool.split)
qed

lemma check_loop_raises:
  "condition_func a data = Raises \<Longrightarrow>
   check_loop now data smb (a # as) acc = check_loop now data smb as acc"
  by (cases acc) simp

lemma set_first_active_length:
  "length (set_first_active b n as) = length as"
  by (induction as) auto

lemma set_first_active_nth:
  "i < length as \<Longrightarrow>
   set_first_active b n as ! i =
     (if i = length (takeWhile (\<lambda>a. name a \<noteq> n) as) then (as ! i)\<lparr>active := b\<rparr> else as ! i)"
proof (induction as arbitrary: i)
  case Nil
  then show ?case by simp
next
  case (Cons a as)
  then show ?case by (cases i) auto
qed

lemma set_first_active_no_match:
  "\<forall>a \<in> set as. name a \<noteq> n \<Longrightarrow> set_first_active b n as = as"
  by (induction as) auto


text \<open>
  C8. \<open>remove_alert\<close> removes every alert whose name is the argument and no other one
  (the others stay, in their order); \<open>activate_alert\<close> and \<open>deactivate_alert\<close> assign the
  flag (\<open>True\<close>, respectively \<open>False\<close>) of the first alert whose name matches, leave every
  other alert as it is, and leave the registry unchanged when no name matches.
\<close>

theorem alert_registry_operations:
  "(\<forall>a \<in> set (alerts (remove_alert n st)). name a \<noteq> n)
   \<and> filter (\<lambda>a. name a \<noteq> n) (alerts (remove_alert n st)) = filter (\<lambda>a. name a \<noteq> n) (alerts st)
   \<and> alert_history (remove_alert n st) = alert_history st
   \<and> length (alerts (activate_alert n st)) = length (alerts st)
   \<and> length (alerts (deactivate_alert n st)) = length (alerts st)
   \<and> (\<forall>i < length (alerts st).
        alerts (activate_alert n st) ! i =
          (if i = length (takeWhile (\<lambda>a. name a \<noteq> n) (alerts st))
           then (alerts st ! i)\<lparr>active := True\<rparr> else alerts st ! i)
        \<and> alerts (deactivate_alert n st) ! i =
          (if i = length (takeWhile (\<lambda>a. name a \<noteq> n) (alerts st))
           then (alerts st ! i)\<lparr>active := False\<rparr> else alerts st ! i))
   \<and> ((\<forall>a \<in> set (alerts st). name a \<noteq> n) \<longrightarrow>
        activate_alert n st = st \<and> deactivate_alert n st = st)"
  by (simp add: remove_alert_def activate_alert_def deactivate_alert_def
      set_first_active_length set_first_active_nth set_first_active_no_match)

theorem alert_registry_operations_witness:
  "map active (alerts (deactivate_alert ''X''
      \<lparr>alerts = [\<lparr>name = ''Y'', condition_func = (\<lambda>_::unit. Returns True),
                    alert_symbol = None, active = True\<rparr>,
                 \<lparr>name = ''X'', condition_func = (\<lambda>_. Returns True),
                    alert_symbol = None, active = True\<rparr>,
                 \<lparr>name = ''X'', condition_func = (\<lambda>_. Returns True),
                    alert_symbol = None, active = True\<rparr>],
        alert_history = []\<rparr>)) = [True, False, True]
   \<and> deactivate_alert ''Z''
        \<lparr>alerts = [\<lparr>name = ''Y'', condition_func = (\<lambda>_::unit. Returns True),
                      alert_symbol = None, active = True\<rparr>],
          alert_history = []\<rparr>
      = \<lparr>alerts = [\<lparr>name = ''Y'', condition_func = (\<lambda>_::unit. Returns True),
                      alert_symbol = None, active = True\<rparr>],
          alert_history = []\<rparr>"
  using alert_registry_operations [of "''X''"
      "\<lparr>alerts = [\<lparr>name = ''Y'', condition_func = (\<lambda>_::unit. Returns True),
                    alert_symbol = None, active = True\<rparr>,
                 \<lparr>name = ''X'', condition_func = (\<lambda>_. Returns True),
                    alert_symbol = None, active = True\<rparr>,
                 \<lparr>name = ''X'', condition_func = (\<lambda>_. Returns True),
                    alert_symbol = None, active = True\<rparr>],
        alert_history = []\<rparr>"]
    alert_registry_operations [of "''Z''"
      "\<lparr>alerts = [\<lparr>name = ''Y'', condition_func = (\<lambda>_::unit. Returns True),
                      alert_symbol = None, active = True\<rparr>],
          alert_history = []\<rparr>"]
  by (simp add: deactivate_alert_def)

lemma spec_triggered_Nil: "spec_triggered now data smb k [] = []"
  by (simp add: spec_triggered_def)

lemma spec_triggered_Cons:
  "spec_triggered now data smb k (a # as) =
     (if fires data smb a
      then \<lparr>trig_name = name a, trig_symbol = (if truthy smb then smb else alert_symbol a),
            trig_timestamp = now k\<rparr> # spec_triggered now data smb (Suc k) as
      else spec_triggered now data smb k as)"
  by (simp add: spec_triggered_def)

lemma check_loop_spec:
  "check_loop now data smb as (trig, hist) =
     (trig @ spec_triggered now data smb (length trig) as,
      hist @ spec_triggered now data smb (length trig) as)"
proof (induction as arbitrary: trig hist)
  case Nil
  show ?case by (simp add: spec_triggered_Nil)
next
  case (Cons a as)
  show ?case
  proof (cases "fires data smb a")
    case True
    then show ?thesis
      by (auto simp: Cons.IH spec_triggered_Cons fires_def Let_def)
  next
    case False
    then show ?thesis
      by (auto simp: Cons.IH spec_triggered_Cons fires_def split: outcome.split bool.split)
  qed
qed

lemma spec_triggered_skip:
  "\<not> fires data smb a \<Longrightarrow>
   spec_triggered now data smb k (xs @ a # ys) = spec_triggered now data smb k (xs @ ys)"
  by (simp add: spec_triggered_def)

text \<open>
  C4. When the predicate of a registered alert raises on the supplied data, that alert does
  not fire and the exception stays inside \<open>check_alerts\<close>: the call returns, and its
  triggered list is that of all the other alerts of the registry, those before and those
  after the raising one, each evaluated as the specification asks; the history after the
  call is the history before it followed by that list; the registry is not touched. Both
  are what the call gives for the registry without the raising alert.
\<close>

theorem check_alerts_isolates_raising_predicate:
  assumes "condition_func a data = Raises"
  shows "\<not> fires data smb a
         \<and> fst (check_alerts now data smb (st\<lparr>alerts := xs @ a # ys\<rparr>))
           = spec_triggered now data smb 0 (xs @ ys)
         \<and> alert_history (snd (check_alerts now data smb (st\<lparr>alerts := xs @ a # ys\<rparr>)))
           = alert_history st @ spec_triggered now data smb 0 (xs @ ys)
         \<and> alerts (snd (check_alerts now data smb (st\<lparr>alerts := xs @ a # ys\<rparr>))) = xs @ a # ys
         \<and> fst (check_alerts now data smb (st\<lparr>alerts := xs @ a # ys\<rparr>))
           = fst (check_alerts now data smb (st\<lparr>alerts := xs @ ys\<rparr>))
         \<and> alert_history (snd (check_alerts now data smb (st\<lparr>alerts := xs @ a # ys\<rparr>)))
           = alert_history (snd (check_alerts now data smb (st\<lparr>alerts := xs @ ys\<rparr>)))"
proof -
  have nf: "\<not> fires data smb a" using assms by (simp add: fires_def)
  then show ?thesis
    by (simp add: check_alerts_def check_loop_spec spec_triggered_skip)
qed

theorem check_alerts_isolates_raising_predicate_witness:
  "condition_func \<lparr>name = ''bad'', condition_func = (\<lambda>_::unit. Raises), alert_symbol = None, active = True\<rparr> () = Raises
   \<and> fst (check_alerts (\<lambda>k. 5 + int k) () (Some ''BTCUSDT'')
        (\<lparr>alerts = [], alert_history = [\<lparr>trig_name = ''old'', trig_symbol = None, trig_timestamp = 1\<rparr>]\<rparr>\<lparr>alerts := [\<lparr>name = ''first'', condition_func = (\<lambda>_. Returns True), alert_symbol = None, active = True\<rparr>] @ \<lparr>name = ''bad'', condition_func = (\<lambda>_::unit. Raises), alert_symbol = None, active = True\<rparr> # [\<lparr>name = ''other'', condition_func = (\<lambda>_. Returns True), alert_symbol = Some ''ETHUSDT'', active = True\<rparr>,
          \<lparr>name = ''last'', condition_func = (\<lambda>_. Returns True), alert_symbol = Some ''BTCUSDT'', active = True\<rparr>]\<rparr>))
     = [\<lparr>trig_name = ''first'', trig_symbol = Some ''BTCUSDT'', trig_timestamp = 5\<rparr>,
        \<lparr>trig_name = ''last'', trig_symbol = Some ''BTCUSDT'', trig_timestamp = 6\<rparr>]
   \<and> alert_history (snd (check_alerts (\<lambda>k. 5 + int k) () (Some ''BTCUSDT'')
        (\<lparr>alerts = [], alert_history = [\<lparr>trig_name = ''old'', trig_symbol = None, trig_timestamp = 1\<rparr>]\<rparr>\<lparr>alerts := [\<lparr>name = ''first'', condition_func = (\<lambda>_. Returns True), alert_symbol = None, active = True\<rparr>] @ \<lparr>name = ''bad'', condition_func = (\<lambda>_::unit. Raises), alert_symbol = None, active = True\<rparr> # [\<lparr>name = ''other'', condition_func = (\<lambda>_. Returns True), alert_symbol = Some ''ETHUSDT'', active = True\<rparr>,
          \<lparr>name = ''last'', condition_func = (\<lambda>_. Returns True), alert_symbol = Some ''BTCUSDT'', active = True\<rparr>]\<rparr>)))
     = [\<lparr>trig_name = ''old'', trig_symbol = None, trig_timestamp = 1\<rparr>,
        \<lparr>trig_name = ''first'', trig_symbol = Some ''BTCUSDT'', trig_timestamp = 5\<rparr>,
        \<lparr>trig_name = ''last'', trig_symbol = Some ''BTCUSDT'', trig_timestamp = 6\<rparr>]"
  using check_alerts_isolates_raising_predicate
    [where a = "\<lparr>name = ''bad'', condition_func = (\<lambda>_::unit. Raises), alert_symbol = None, active = True\<rparr>"
       and data = "()" and now = "\<lambda>k. 5 + int k" and smb = "Some ''BTCUSDT''"
       and st = "\<lparr>alerts = [], alert_history = [\<lparr>trig_name = ''old'', trig_symbol = None, trig_timestamp = 1\<rparr>]\<rparr>"
       and xs = "[\<lparr>name = ''first'', condition_func = (\<lambda>_. Returns True), alert_symbol = None, active = True\<rparr>]"
       and ys = "[\<lparr>name = ''other'', condition_func = (\<lambda>_. Returns True), alert_symbol = Some ''ETHUSDT'', active = True\<rparr>,
          \<lparr>name = ''last'', condition_func = (\<lambda>_. Returns True), alert_symbol = Some ''BTCUSDT'', active = True\<rparr>]"]
  by (simp add: spec_triggered_def fires_def truthy_def)

section \<open>The store: what a call changes\<close>

lemma tail_rows_length: "length (tail_rows n xs) = min n (length xs)"
  by (simp add: tail_rows_def)

lemma trim_series_length: "length (trim_series xs) \<le> 2000"
  by (simp add: trim_series_def tail_rows_length)

lemma resample_timeframe_fst:
  "fst (resample_timeframe sf td tf acc) =
     (if td = [] \<or> resample_frame (rule_ns tf) td = [] then fst acc
      else (fst acc)\<lparr>resampled_data := (resampled_data (fst acc))
              (tf := trim_series (merge_series (resampled_data (fst acc) tf)
                                    (resample_frame (rule_ns tf) td)))\<rparr>)"
  by (simp add: resample_timeframe_def Let_def case_prod_beta)

lemma resample_data_fst:
  "fst (resample_data sf now smb s) =
     (if select_ticks smb (tick_data s) = [] then s
      else (fst (resample_timeframe sf (select_ticks smb (tick_data s)) TF_5min
             (resample_timeframe sf (select_ticks smb (tick_data s)) TF_1min
               (resample_timeframe sf (select_ticks smb (tick_data s)) TF_1s (s, [])))))
           \<lparr>last_resample := (\<lambda>_. now)\<rparr>)"
  by (simp add: resample_data_def Let_def case_prod_beta)

lemma resample_data_tick_data:
  "tick_data (fst (resample_data sf now smb s)) = tick_data s"
  by (simp add: resample_data_fst resample_timeframe_fst)

lemma resample_data_series:
  "resampled_data (fst (resample_data sf now smb s)) tf =
     (if select_ticks smb (tick_data s) = []
         \<or> resample_frame (rule_ns tf) (select_ticks smb (tick_data s)) = []
      then resampled_data s tf
      else trim_series (merge_series (resampled_data s tf)
             (resample_frame (rule_ns tf) (select_ticks smb (tick_data s)))))"
  by (cases tf) (simp_all add: resample_data_fst resample_timeframe_fst)

lemma add_tick_tick_data_length:
  "length (tick_data s) \<le> 10000 \<Longrightarrow> length (tick_data (snd (add_tick sf tk s))) \<le> 10000"
  by (simp add: add_tick_def Let_def tail_rows_length)

lemma add_tick_series: "resampled_data (snd (add_tick sf tk s)) = resampled_data s"
  by (simp add: add_tick_def Let_def)

text \<open>
  C9. \<open>resample_data\<close> leaves the raw tick buffer as it was, for every store, symbol
  argument and behaviour of the sink.
\<close>

theorem resample_data_keeps_tick_data:
  "tick_data (fst (resample_data sink_fails now smb s)) = tick_data s"
  by (rule resample_data_tick_data)

text \<open>
  C10. In every state that calls of \<open>add_tick\<close> and \<open>resample_data\<close> reach from a fresh
  store, the tick buffer holds at most 10000 ticks and each of the three series at most
  2000 bars.
\<close>

theorem buffers_bounded:
  "reachable s \<Longrightarrow>
   length (tick_data s) \<le> 10000 \<and> (\<forall>tf. length (resampled_data s tf) \<le> 2000)"
proof (induction rule: reachable.induct)
  case (reach_init has_db now)
  show ?case by (simp add: init_store_def)
next
  case (reach_add_tick s sink_fails tk)
  then show ?case by (simp add: add_tick_tick_data_length add_tick_series)
next
  case (reach_resample s sink_fails now smb)
  then show ?case
    by (simp add: resample_data_tick_data resample_data_series trim_series_length)
qed

theorem buffers_bounded_witness:
  "reachable (fst (resample_data (\<lambda>_. False) 1 None
      (snd (add_tick False
        \<lparr>timestamp = 0, symbol = ''BTCUSDT'', price = 100, quantity = 1\<rparr>
        (init_store False 0)))))
   \<and> length (tick_data (fst (resample_data (\<lambda>_. False) 1 None
      (snd (add_tick False
        \<lparr>timestamp = 0, symbol = ''BTCUSDT'', price = 100, quantity = 1\<rparr>
        (init_store False 0)))))) \<le> 10000
   \<and> length (resampled_data (fst (resample_data (\<lambda>_. False) 1 None
      (snd (add_tick False
        \<lparr>timestamp = 0, symbol = ''BTCUSDT'', price = 100, quantity = 1\<rparr>
        (init_store False 0))))) TF_1s) \<le> 2000"
proof -
  have r: "reachable (fst (resample_data (\<lambda>_. False) 1 None
      (snd (add_tick False
        \<lparr>timestamp = 0, symbol = ''BTCUSDT'', price = 100, quantity = 1\<rparr>
        (init_store False 0)))))"
    by (intro reach_resample reach_add_tick reach_init)
  from buffers_bounded [OF r] r show ?thesis by blast
qed

text \<open>
  C5. With a sink configured and the write failing, \<open>add_tick\<close> does not return normally:
  the exception of the write leaves the call. The buffer keeps the new tick.
\<close>

theorem add_tick_sink_failure_propagates:
  "add_tick True \<lparr>timestamp = 0, symbol = ''BTCUSDT'', price = 100, quantity = 1\<rparr>
     (init_store True 0)
   = (Inl SinkWriteFailure,
      (init_store True 0)
        \<lparr>tick_data := [\<lparr>timestamp = 0, symbol = ''BTCUSDT'', price = 100, quantity = 1\<rparr>]\<rparr>)"
  by (simp add: add_tick_def init_store_def)

section \<open>Hedge ratio and rolling z-score\<close>

lemmas hedge_eval = calculate_hedge_ratio_def aligned_dropna_def frame_index_def lookup_def
  List.map_filter_def ols_slope_def hedge_fallback_def np_cov_def np_var_def sum_sq_dev_def
  sum_cross_dev_def mean_def Let_def

text \<open>
  What the fallback computes, were it reached: it divides a covariance normalised by
  \<open>N - 1\<close> by a variance normalised by \<open>N\<close>, which is the regression slope times
  \<open>N / (N - 1)\<close>. With finite numbers the fit of the outer \<open>try\<close> does not raise, so that
  no call with such input takes this path.
\<close>

lemma hedge_fallback_scaled:
  "2 \<le> length bs \<Longrightarrow> length ys = length bs \<Longrightarrow> sum_sq_dev bs \<noteq> 0 \<Longrightarrow>
   hedge_fallback ys bs =
     (real (length bs) / (real (length bs) - 1)) * (sum_cross_dev ys bs / sum_sq_dev bs)"
  by (simp add: hedge_fallback_def np_cov_def np_var_def)

text \<open>
  C3. With a second series that is constant (\<open>3, 3\<close>) the OLS fit does not raise, the
  fallback and its zero-variance test are not reached, and the call returns the slope of the
  least-norm solution, \<open>9/20\<close>; only when the fit raises is the result \<open>0\<close>.
\<close>

theorem hedge_ratio_constant_second_series:
  "calculate_hedge_ratio False [(0, Some 1), (1, Some 2)] [(0, Some 3), (1, Some 3)] = 9 / 20
   \<and> aligned_dropna [(0, Some 1), (1, Some 2)] [(0, Some 3), (1, Some 3)] = [(0, 1, 3), (1, 2, 3)]
   \<and> calculate_hedge_ratio True [(0, Some 1), (1, Some 2)] [(0, Some 3), (1, Some 3)] = 0"
  by (simp add: hedge_eval)

lemma window_values_early: "i + 1 < w \<Longrightarrow> window_values w vs i = None"
  by (simp add: window_values_def)

lemma zscore_at_early: "i + 1 < w \<Longrightarrow> zscore_at w vs i = None"
  by (simp add: zscore_at_def rolling_mean_def window_values_early split: option.split)

lemma zscore_at_zero_std: "rolling_std w vs i = Some 0 \<Longrightarrow> zscore_at w vs i = None"
  by (simp add: zscore_at_def replace_zero_def split: option.split)

text \<open>
  C6. For a window \<open>w \<ge> 1\<close> the result of \<open>calculate_zscore\<close> has the length and the index
  of the input. It is NaN everywhere when the input is shorter than \<open>w\<close>; otherwise it is NaN
  at every position below \<open>w - 1\<close> and at every position whose rolling standard deviation
  is exactly \<open>0\<close>. The function has no raising path.
\<close>

theorem calculate_zscore_shape:
  assumes "1 \<le> w"
  shows "length (calculate_zscore s w) = length s
    \<and> map fst (calculate_zscore s w) = map fst s
    \<and> (int (length s) < w \<longrightarrow> (\<forall>e \<in> set (calculate_zscore s w). snd e = None))
    \<and> (\<forall>i < length s. int i < w - 1 \<longrightarrow> snd (calculate_zscore s w ! i) = None)
    \<and> (\<forall>i < length s. rolling_std (nat w) (map snd s) i = Some 0 \<longrightarrow>
          snd (calculate_zscore s w ! i) = None)"
proof (cases "int (length s) < w")
  case True
  then have z: "calculate_zscore s w = map (\<lambda>(l, v). (l, None)) s"
    by (simp add: calculate_zscore_def)
  show ?thesis unfolding z using True by (auto simp: case_prod_beta comp_def)
next
  case False
  with assms have z: "calculate_zscore s w =
      map (\<lambda>i. (fst (s ! i), zscore_at (nat w) (map snd s) i)) [0 ..< length s]"
    by (simp add: calculate_zscore_def)
  have idx: "map fst (calculate_zscore s w) = map fst s"
    unfolding z by (rule nth_equalityI) simp_all
  have early: "int i < w - 1 \<Longrightarrow> i + 1 < nat w" for i by linarith
  show ?thesis
    using False idx by (simp add: z zscore_at_early early zscore_at_zero_std)
qed

theorem calculate_zscore_shape_witness:
  "(1::int) \<le> 2
   \<and> map snd (calculate_zscore [(10, Some 1), (11, Some 1), (12, Some 1)] 2) = [None, None, None]
   \<and> rolling_std (nat 2) (map snd [(10, Some 1), (11, Some 1), (12, Some (1::real))]) 1 = Some 0
   \<and> map snd (calculate_zscore [(10, Some 1)] 2) = [None]"
  using calculate_zscore_shape [of 2 "[(10, Some 1), (11, Some 1), (12, Some 1)]"]
    calculate_zscore_shape [of 2 "[(10, Some 1)]"]
  by (simp add: calculate_zscore_def zscore_at_def rolling_mean_def rolling_std_def
      window_values_def replace_zero_def sum_sq_dev_def mean_def List.map_filter_def Let_def
      upt_rec [of 0] upt_rec [of 1] upt_rec [of 2])

section \<open>Resampled bars\<close>










lemma dd_subset: "set (drop_duplicates_last xs) \<subseteq> set xs"
  by (induction xs) auto

lemma dd_append:
  "drop_duplicates_last (xs @ ys) =
   filter (\<lambda>x. bar_key x \<notin> bar_key ` set ys) (drop_duplicates_last xs) @ drop_duplicates_last ys"
  by (induction xs) auto

lemma dd_distinct_id: "distinct (map bar_key xs) \<Longrightarrow> drop_duplicates_last xs = xs"
  by (induction xs) auto

lemma dd_distinct: "distinct (map bar_key (drop_duplicates_last xs))"
proof (induction xs)
  case Nil
  show ?case by simp
next
  case (Cons x xs)
  have "bar_key x \<notin> bar_key ` set xs \<Longrightarrow> bar_key x \<notin> bar_key ` set (drop_duplicates_last xs)"
    using dd_subset [of xs] by blast
  with Cons show ?case by simp
qed

lemma dd_nonempty: "xs \<noteq> [] \<Longrightarrow> drop_duplicates_last xs \<noteq> []"
proof (induction xs)
  case Nil
  then show ?case by simp
next
  case (Cons x xs)
  show ?case
  proof (cases "bar_key x \<in> bar_key ` set xs")
    case True
    then have "xs \<noteq> []" by auto
    with Cons.IH True show ?thesis by simp
  next
    case False
    then show ?thesis by simp
  qed
qed

lemma dd_absorb:
  assumes "bar_key ` set xs \<subseteq> bar_key ` set ys"
  shows "drop_duplicates_last (xs @ ys) = drop_duplicates_last ys"
proof -
  have "filter (\<lambda>x. bar_key x \<notin> bar_key ` set ys) (drop_duplicates_last xs) = []"
    using assms dd_subset [of xs] by (auto simp: filter_empty_conv)
  then show ?thesis by (simp add: dd_append)
qed

lemma merge_series_idem:
  assumes d: "distinct (map bar_key new)" and ne: "new \<noteq> []"
  shows "merge_series (merge_series stored new) new = merge_series stored new"
proof (cases "stored = []")
  case True
  have "drop_duplicates_last (new @ new) = new"
    using d by (simp add: dd_absorb dd_distinct_id)
  with True ne show ?thesis by (simp add: merge_series_def)
next
  case False
  define m where "m = drop_duplicates_last (stored @ new)"
  define a where "a = filter (\<lambda>x. bar_key x \<notin> bar_key ` set new) (drop_duplicates_last stored)"
  have m: "m = a @ new"
    using d by (simp add: m_def a_def dd_append dd_distinct_id)
  have dm: "distinct (map bar_key m)" unfolding m_def by (rule dd_distinct)
  have "drop_duplicates_last (m @ new) =
        filter (\<lambda>x. bar_key x \<notin> bar_key ` set new) (drop_duplicates_last m) @ new"
    using d by (simp add: dd_append dd_distinct_id)
  also have "drop_duplicates_last m = m" using dm by (rule dd_distinct_id)
  also have "filter (\<lambda>x. bar_key x \<notin> bar_key ` set new) m = a"
    unfolding m by (auto simp: a_def filter_empty_conv)
  finally have "drop_duplicates_last (m @ new) = m" by (simp add: m)
  moreover have "m \<noteq> []" using ne by (simp add: m)
  ultimately show ?thesis using False by (simp add: merge_series_def m_def)
qed

lemma resample_group_keys:
  "map bar_key (resample_group d g td) =
     (let grp = sort_key timestamp (filter (\<lambda>t. symbol t = g) td)
      in if grp = [] then []
         else map (\<lambda>k. (bucket_start d (timestamp (hd grp)) + int k * d, g))
                [0 ..< nat ((bucket_start d (timestamp (last grp))
                             - bucket_start d (timestamp (hd grp))) div d) + 1])"
  by (simp add: resample_group_def Let_def bar_key_def ohlcv_def comp_def)

lemma resample_group_distinct:
  assumes "d \<noteq> 0"
  shows "distinct (map bar_key (resample_group d g td))"
proof -
  have "inj_on (\<lambda>k. (c + int k * d, g)) A" for c A
    using assms by (auto simp: inj_on_def)
  then have dm: "distinct (map (\<lambda>k. (c + int k * d, g)) [0 ..< n])" for c n
    by (simp add: distinct_map)
  show ?thesis
    unfolding resample_group_keys Let_def by (simp add: dm del: upt_Suc)
qed

lemma resample_group_symbol:
  "b \<in> set (resample_group d g td) \<Longrightarrow> bar_symbol b = g"
  by (auto simp: resample_group_def Let_def ohlcv_def split: if_splits)

lemma concat_groups_distinct:
  assumes "distinct gs"
    and "\<And>g. distinct (map bar_key (f g))"
    and "\<And>g b. b \<in> set (f g) \<Longrightarrow> bar_symbol b = g"
  shows "distinct (map bar_key (concat (map f gs)))"
  using assms(1)
proof (induction gs)
  case Nil
  show ?case by simp
next
  case (Cons g gs)
  have "bar_key ` set (f g) \<inter> bar_key ` (\<Union>h \<in> set gs. set (f h)) = {}"
    using Cons.prems assms(3) by (fastforce simp: bar_key_def)
  with Cons assms(2) show ?case by simp
qed

lemma resample_frame_distinct:
  "d \<noteq> 0 \<Longrightarrow> distinct (map bar_key (resample_frame d td))"
  unfolding resample_frame_def
  by (rule concat_groups_distinct) (simp_all add: resample_group_distinct resample_group_symbol)

lemma rule_ns_nonzero: "rule_ns tf \<noteq> 0"
  by (cases tf) simp_all


















text \<open>
  The retention trim: a merged series of a thousand stored bars and a thousand and one new
  ones is cut to the last thousand new bars, and merging the same new bars into that again
  gives all thousand and one of them.
\<close>

lemma resample_frame_symbol:
  "b \<in> set (resample_frame d td) \<Longrightarrow> bar_symbol b \<in> symbol ` set td"
  by (auto simp: resample_frame_def dest: resample_group_symbol)

lemma trim_after_merge:
  assumes d: "distinct (map bar_key (A @ R))" and a: "length A = 1000" and r: "length R = 1001"
  shows "trim_series (merge_series A R) = drop 1 R"
    and "trim_series (merge_series (drop 1 R) R) = R"
proof -
  have A: "A \<noteq> []" using a by auto
  have "merge_series A R = A @ R"
    using A d by (simp add: merge_series_def dd_distinct_id del: distinct_append map_append)
  then show "trim_series (merge_series A R) = drop 1 R"
    using a r by (simp add: trim_series_def tail_rows_def)
  have R1: "drop 1 R \<noteq> []" using r by simp
  have "bar_key ` set (drop 1 R) \<subseteq> bar_key ` set R"
    using set_drop_subset [of 1 R] by blast
  then have "drop_duplicates_last (drop 1 R @ R) = R"
    using d by (simp add: dd_absorb dd_distinct_id)
  then have "merge_series (drop 1 R) R = R"
    using R1 by (simp add: merge_series_def)
  then show "trim_series (merge_series (drop 1 R) R) = R"
    using r by (simp add: trim_series_def)
qed

lemma dd_reappend:
  assumes "distinct (map bar_key (X @ R))"
  shows "drop_duplicates_last ((X @ R) @ R) = X @ R"
proof -
  have f: "filter (\<lambda>x. bar_key x \<notin> bar_key ` set R) (X @ R) = X"
    using assms by (auto simp: filter_empty_conv filter_id_conv)
  have i: "drop_duplicates_last (X @ R) = X @ R" and j: "drop_duplicates_last R = R"
    using assms by (simp_all add: dd_distinct_id)
  have "drop_duplicates_last ((X @ R) @ R) =
        filter (\<lambda>x. bar_key x \<notin> bar_key ` set R) (drop_duplicates_last (X @ R))
          @ drop_duplicates_last R"
    by (rule dd_append)
  also have "\<dots> = filter (\<lambda>x. bar_key x \<notin> bar_key ` set R) (X @ R) @ R"
    by (simp only: i j)
  also have "\<dots> = X @ R" by (simp only: f)
  finally show ?thesis .
qed

lemma merge_series_split:
  assumes "distinct (map bar_key R)"
  shows "\<exists>A. merge_series S0 R = A @ R \<and> distinct (map bar_key (A @ R))"
proof (cases "S0 = []")
  case True
  with assms show ?thesis by (simp add: merge_series_def)
next
  case False
  have "drop_duplicates_last (S0 @ R) =
        filter (\<lambda>x. bar_key x \<notin> bar_key ` set R) (drop_duplicates_last S0) @ R"
    using assms by (simp add: dd_append dd_distinct_id)
  moreover have "distinct (map bar_key (drop_duplicates_last (S0 @ R)))" by (rule dd_distinct)
  ultimately show ?thesis using False by (simp add: merge_series_def)
qed

lemma trim_merge_again:
  assumes d: "distinct (map bar_key (A @ R))" and ne: "R \<noteq> []"
  shows "trim_series (merge_series (trim_series (A @ R)) R) = trim_series (A @ R)
         \<longleftrightarrow> \<not> (2000 < length (A @ R) \<and> 1000 < length R \<and> length R \<le> 2000)"
proof -
  consider (small) "length (A @ R) \<le> 2000"
    | (keep) "2000 < length (A @ R)" "length R \<le> 1000"
    | (cut) "2000 < length (A @ R)" "1000 < length R"
    by linarith
  then show ?thesis
  proof cases
    case small
    then have t: "trim_series (A @ R) = A @ R" by (simp add: trim_series_def)
    have "merge_series (A @ R) R = A @ R"
      using ne dd_reappend [OF d] by (simp add: merge_series_def)
    with t small show ?thesis by simp
  next
    case keep
    define k where "k = length A + length R - 1000"
    have kA: "k \<le> length A" using keep by (simp add: k_def)
    have t: "trim_series (A @ R) = drop k A @ R"
      using keep kA by (simp add: trim_series_def tail_rows_def k_def)
    have len: "length (drop k A @ R) = 1000" using keep by (simp add: k_def)
    have "distinct (map bar_key (drop k A))" "set (drop k A) \<subseteq> set A"
      using d by (simp_all add: drop_map [symmetric] set_drop_subset)
    then have dX: "distinct (map bar_key (drop k A @ R))" using d by auto
    have "merge_series (drop k A @ R) R = drop k A @ R"
      using ne dd_reappend [OF dX] by (simp add: merge_series_def)
    then have "trim_series (merge_series (drop k A @ R) R) = drop k A @ R"
      using len by (simp add: trim_series_def)
    with t keep show ?thesis by simp
  next
    case cut
    define S where "S = drop (length R - 1000) R"
    have t: "trim_series (A @ R) = S"
      using cut by (simp add: trim_series_def tail_rows_def S_def)
    have lenS: "length S = 1000" using cut by (simp add: S_def)
    then have neS: "S \<noteq> []" by auto
    have "bar_key ` set S \<subseteq> bar_key ` set R"
      unfolding S_def using set_drop_subset [of "length R - 1000" R] by blast
    then have "drop_duplicates_last (S @ R) = R"
      using d by (simp add: dd_absorb dd_distinct_id)
    then have m: "merge_series S R = R" using neS by (simp add: merge_series_def)
    show ?thesis
    proof (cases "length R \<le> 2000")
      case True
      then have "trim_series R = R" by (simp add: trim_series_def)
      moreover have "R \<noteq> S" using lenS cut by auto
      ultimately show ?thesis using t m cut True by simp
    next
      case False
      then have "trim_series R = S" by (simp add: trim_series_def tail_rows_def S_def)
      then show ?thesis using t m False by simp
    qed
  qed
qed

text \<open>
  C7, as the code has it. A second call of \<open>resample_data\<close> with the same symbol
  argument and no tick added in between leaves the stored series of a timeframe unchanged,
  except when the series merged by the first call had more than 2000 bars, so that the
  first call trimmed it to the last 1000, while the frame computed from the ticks has more
  than 1000 and at most 2000 bars: then, and only then, the second call changes the series.
\<close>

theorem resample_twice_unchanged_iff:
  "resampled_data (fst (resample_data sf' now' smb (fst (resample_data sf now smb s)))) tf
     = resampled_data (fst (resample_data sf now smb s)) tf
   \<longleftrightarrow> \<not> (2000 < length (merge_series (resampled_data s tf)
                          (resample_frame (rule_ns tf) (select_ticks smb (tick_data s))))
          \<and> 1000 < length (resample_frame (rule_ns tf) (select_ticks smb (tick_data s)))
          \<and> length (resample_frame (rule_ns tf) (select_ticks smb (tick_data s))) \<le> 2000)"
proof -
  define td where "td = select_ticks smb (tick_data s)"
  define R where "R = resample_frame (rule_ns tf) td"
  define s1 where "s1 = fst (resample_data sf now smb s)"
  have td1: "select_ticks smb (tick_data s1) = td"
    by (simp add: s1_def td_def resample_data_tick_data)
  have goal: "resampled_data (fst (resample_data sf' now' smb s1)) tf = resampled_data s1 tf
     \<longleftrightarrow> \<not> (2000 < length (merge_series (resampled_data s tf) R)
            \<and> 1000 < length R \<and> length R \<le> 2000)"
  proof (cases "td = [] \<or> R = []")
    case True
    then have "R = []" by (auto simp: R_def resample_frame_def)
    moreover have "resampled_data (fst (resample_data sf' now' smb s1)) tf = resampled_data s1 tf"
      using True unfolding R_def by (simp add: resample_data_series [of sf' now' smb s1] td1)
    ultimately show ?thesis by simp
  next
    case False
    have d: "distinct (map bar_key R)"
      unfolding R_def by (rule resample_frame_distinct) (rule rule_ns_nonzero)
    from merge_series_split [OF d] obtain A
      where A: "merge_series (resampled_data s tf) R = A @ R" and dA: "distinct (map bar_key (A @ R))"
      by blast
    have ser1: "resampled_data s1 tf = trim_series (A @ R)"
      using False by (simp add: s1_def resample_data_series td_def [symmetric] R_def [symmetric] A)
    have ser2: "resampled_data (fst (resample_data sf' now' smb s1)) tf
                = trim_series (merge_series (trim_series (A @ R)) R)"
      using False by (simp add: resample_data_series [of sf' now' smb s1] td1 R_def [symmetric] ser1)
    from False have "R \<noteq> []" by simp
    from trim_merge_again [OF dA this] show ?thesis
      unfolding ser1 ser2 A .
  qed
  then show ?thesis by (simp add: s1_def R_def td_def)
qed

theorem resample_twice_unchanged_iff_witness:
  "2000 < length (merge_series (resampled_data (fst (resample_data (\<lambda>_. False) 1 (Some ''ETHUSDT'')
       (snd (add_tick False \<lparr>timestamp = 0, symbol = ''BTCUSDT'', price = 100, quantity = 1\<rparr>
         (snd (add_tick False \<lparr>timestamp = 1999000000000, symbol = ''ETHUSDT'', price = 11, quantity = 1\<rparr>
         (snd (add_tick False \<lparr>timestamp = 0, symbol = ''ETHUSDT'', price = 10, quantity = 1\<rparr>
         (init_store False 0))))))))) TF_1s)
       (resample_frame (rule_ns TF_1s) (select_ticks (Some ''BTCUSDT'') (tick_data (fst (resample_data (\<lambda>_. False) 1 (Some ''ETHUSDT'')
       (snd (add_tick False \<lparr>timestamp = 0, symbol = ''BTCUSDT'', price = 100, quantity = 1\<rparr>
         (snd (add_tick False \<lparr>timestamp = 1999000000000, symbol = ''ETHUSDT'', price = 11, quantity = 1\<rparr>
         (snd (add_tick False \<lparr>timestamp = 0, symbol = ''ETHUSDT'', price = 10, quantity = 1\<rparr>
         (init_store False 0)))))))))))))
   \<and> resampled_data (fst (resample_data (\<lambda>_. False) 3 (Some ''BTCUSDT'')
       (fst (resample_data (\<lambda>_. False) 2 (Some ''BTCUSDT'')
       (fst (resample_data (\<lambda>_. False) 1 (Some ''ETHUSDT'')
       (snd (add_tick False \<lparr>timestamp = 0, symbol = ''BTCUSDT'', price = 100, quantity = 1\<rparr>
         (snd (add_tick False \<lparr>timestamp = 1999000000000, symbol = ''ETHUSDT'', price = 11, quantity = 1\<rparr>
         (snd (add_tick False \<lparr>timestamp = 0, symbol = ''ETHUSDT'', price = 10, quantity = 1\<rparr>
         (init_store False 0))))))))))))) TF_1s
     = resampled_data (fst (resample_data (\<lambda>_. False) 2 (Some ''BTCUSDT'')
       (fst (resample_data (\<lambda>_. False) 1 (Some ''ETHUSDT'')
       (snd (add_tick False \<lparr>timestamp = 0, symbol = ''BTCUSDT'', price = 100, quantity = 1\<rparr>
         (snd (add_tick False \<lparr>timestamp = 1999000000000, symbol = ''ETHUSDT'', price = 11, quantity = 1\<rparr>
         (snd (add_tick False \<lparr>timestamp = 0, symbol = ''ETHUSDT'', price = 10, quantity = 1\<rparr>
         (init_store False 0))))))))))) TF_1s"
proof -
  define e0 where "e0 = \<lparr>timestamp = 0, symbol = ''ETHUSDT'', price = 10, quantity = 1\<rparr>"
  define e1 where "e1 = \<lparr>timestamp = 1999000000000, symbol = ''ETHUSDT'', price = 11, quantity = 1\<rparr>"
  define b0 where "b0 = \<lparr>timestamp = 0, symbol = ''BTCUSDT'', price = 100, quantity = 1\<rparr>"
  define s0 where "s0 = snd (add_tick False b0 (snd (add_tick False e1
                      (snd (add_tick False e0 (init_store False 0))))))"
  define sE where "sE = fst (resample_data (\<lambda>_. False) 1 (Some ''ETHUSDT'') s0)"
  define RE where "RE = resample_frame 1000000000 [e0, e1]"
  define RB where "RB = resample_frame 1000000000 [b0]"
  have td0: "tick_data s0 = [e0, e1, b0]" and ser0: "resampled_data s0 TF_1s = []"
    by (simp_all add: s0_def add_tick_def init_store_def)
  have selE: "select_ticks (Some ''ETHUSDT'') [e0, e1, b0] = [e0, e1]"
    and selB: "select_ticks (Some ''BTCUSDT'') [e0, e1, b0] = [b0]"
    by (simp_all add: select_ticks_def truthy_def e0_def e1_def b0_def)
  have lenE: "length RE = 2000"
    by (simp add: RE_def resample_frame_def resample_group_def bucket_start_def e0_def e1_def
        del: upt_Suc)
  have lenB: "length RB = 1"
    by (simp add: RB_def resample_frame_def resample_group_def bucket_start_def b0_def)
  have symE: "bar_symbol b = ''ETHUSDT''" if "b \<in> set RE" for b
    using resample_frame_symbol [of b "1000000000" "[e0, e1]"] that
    by (simp add: RE_def e0_def e1_def)
  have symB: "bar_symbol b = ''BTCUSDT''" if "b \<in> set RB" for b
    using resample_frame_symbol [of b "1000000000" "[b0]"] that
    by (simp add: RB_def b0_def)
  have disj: "bar_key ` set RE \<inter> bar_key ` set RB = {}"
    using symE symB by (fastforce simp: bar_key_def)
  have d: "distinct (map bar_key (RE @ RB))"
    using disj resample_frame_distinct [of "1000000000"]
    by (simp add: RE_def RB_def)
  have neE: "RE \<noteq> []" using lenE by auto
  have tdE: "tick_data sE = [e0, e1, b0]"
    by (simp add: sE_def resample_data_tick_data td0)
  have serE: "resampled_data sE TF_1s = RE"
    using neE lenE
    by (simp add: sE_def resample_data_series td0 selE ser0 RE_def [symmetric]
        merge_series_def trim_series_def)
  have "merge_series RE RB = RE @ RB"
    using neE d by (simp add: merge_series_def dd_distinct_id del: distinct_append map_append)
  then have big: "2000 < length (merge_series (resampled_data sE TF_1s)
       (resample_frame (rule_ns TF_1s) (select_ticks (Some ''BTCUSDT'') (tick_data sE))))"
    by (simp add: serE tdE selB RB_def [symmetric] lenE lenB)
  have small: "length (resample_frame (rule_ns TF_1s)
       (select_ticks (Some ''BTCUSDT'') (tick_data sE))) = 1"
    by (simp add: tdE selB RB_def [symmetric] lenB)
  have "resampled_data (fst (resample_data (\<lambda>_. False) 3 (Some ''BTCUSDT'')
          (fst (resample_data (\<lambda>_. False) 2 (Some ''BTCUSDT'') sE)))) TF_1s
        = resampled_data (fst (resample_data (\<lambda>_. False) 2 (Some ''BTCUSDT'') sE)) TF_1s"
    using resample_twice_unchanged_iff [of "\<lambda>_. False" 3 "Some ''BTCUSDT''" "\<lambda>_. False" 2 sE TF_1s]
      small by simp
  with big show ?thesis
    by (simp add: sE_def s0_def e0_def e1_def b0_def)
qed

text \<open>
  C7 as stated fails. Two ETHUSDT ticks 999 s apart and two BTCUSDT ticks 1000 s apart are
  ingested and the ETHUSDT ticks resampled (1000 one-second bars). The first call for
  BTCUSDT merges 1001 new bars, which exceeds 2000 and leaves the last 1000; the second
  call for BTCUSDT, with no tick added, stores all 1001.
\<close>

theorem resample_twice_counterexample:
  "resampled_data (fst (resample_data (\<lambda>_. False) 3 (Some ''BTCUSDT'')
       (fst (resample_data (\<lambda>_. False) 2 (Some ''BTCUSDT'')
       (fst (resample_data (\<lambda>_. False) 1 (Some ''ETHUSDT'')
       (snd (add_tick False \<lparr>timestamp = 1000000000000, symbol = ''BTCUSDT'', price = 101, quantity = 1\<rparr>
         (snd (add_tick False \<lparr>timestamp = 0, symbol = ''BTCUSDT'', price = 100, quantity = 1\<rparr>
         (snd (add_tick False \<lparr>timestamp = 999000000000, symbol = ''ETHUSDT'', price = 11, quantity = 1\<rparr>
         (snd (add_tick False \<lparr>timestamp = 0, symbol = ''ETHUSDT'', price = 10, quantity = 1\<rparr>
         (init_store False 0))))))))))))))) TF_1s
   \<noteq> resampled_data (fst (resample_data (\<lambda>_. False) 2 (Some ''BTCUSDT'')
       (fst (resample_data (\<lambda>_. False) 1 (Some ''ETHUSDT'')
       (snd (add_tick False \<lparr>timestamp = 1000000000000, symbol = ''BTCUSDT'', price = 101, quantity = 1\<rparr>
         (snd (add_tick False \<lparr>timestamp = 0, symbol = ''BTCUSDT'', price = 100, quantity = 1\<rparr>
         (snd (add_tick False \<lparr>timestamp = 999000000000, symbol = ''ETHUSDT'', price = 11, quantity = 1\<rparr>
         (snd (add_tick False \<lparr>timestamp = 0, symbol = ''ETHUSDT'', price = 10, quantity = 1\<rparr>
         (init_store False 0))))))))))))) TF_1s"
proof -
  define e0 where "e0 = \<lparr>timestamp = 0, symbol = ''ETHUSDT'', price = 10, quantity = 1\<rparr>"
  define e1 where "e1 = \<lparr>timestamp = 999000000000, symbol = ''ETHUSDT'', price = 11, quantity = 1\<rparr>"
  define b0 where "b0 = \<lparr>timestamp = 0, symbol = ''BTCUSDT'', price = 100, quantity = 1\<rparr>"
  define b1 where "b1 = \<lparr>timestamp = 1000000000000, symbol = ''BTCUSDT'', price = 101, quantity = 1\<rparr>"
  define s0 where "s0 = snd (add_tick False b1 (snd (add_tick False b0 (snd (add_tick False e1
                      (snd (add_tick False e0 (init_store False 0))))))))"
  define sE where "sE = fst (resample_data (\<lambda>_. False) 1 (Some ''ETHUSDT'') s0)"
  define s1 where "s1 = fst (resample_data (\<lambda>_. False) 2 (Some ''BTCUSDT'') sE)"
  define s2 where "s2 = fst (resample_data (\<lambda>_. False) 3 (Some ''BTCUSDT'') s1)"
  define RE where "RE = resample_frame 1000000000 [e0, e1]"
  define RB where "RB = resample_frame 1000000000 [b0, b1]"
  have td0: "tick_data s0 = [e0, e1, b0, b1]" and ser0: "resampled_data s0 TF_1s = []"
    by (simp_all add: s0_def add_tick_def init_store_def)
  have selE: "select_ticks (Some ''ETHUSDT'') [e0, e1, b0, b1] = [e0, e1]"
    and selB: "select_ticks (Some ''BTCUSDT'') [e0, e1, b0, b1] = [b0, b1]"
    by (simp_all add: select_ticks_def truthy_def e0_def e1_def b0_def b1_def)
  have lenE: "length RE = 1000"
    by (simp add: RE_def resample_frame_def resample_group_def bucket_start_def e0_def e1_def
        del: upt_Suc)
  have lenB: "length RB = 1001"
    by (simp add: RB_def resample_frame_def resample_group_def bucket_start_def b0_def b1_def
        del: upt_Suc)
  have symE: "bar_symbol b = ''ETHUSDT''" if "b \<in> set RE" for b
    using resample_frame_symbol [of b "1000000000" "[e0, e1]"] that
    by (simp add: RE_def e0_def e1_def)
  have symB: "bar_symbol b = ''BTCUSDT''" if "b \<in> set RB" for b
    using resample_frame_symbol [of b "1000000000" "[b0, b1]"] that
    by (simp add: RB_def b0_def b1_def)
  have disj: "bar_key ` set RE \<inter> bar_key ` set RB = {}"
    using symE symB by (fastforce simp: bar_key_def)
  have d: "distinct (map bar_key (RE @ RB))"
    using disj resample_frame_distinct [of "1000000000"]
    by (simp add: RE_def RB_def)
  have neE: "RE \<noteq> []" and neB: "RB \<noteq> []" using lenE lenB by auto
  have tdE: "tick_data sE = [e0, e1, b0, b1]"
    by (simp add: sE_def resample_data_tick_data td0)
  have td1: "tick_data s1 = [e0, e1, b0, b1]"
    by (simp add: s1_def resample_data_tick_data tdE)
  have serE: "resampled_data sE TF_1s = RE"
    using neE lenE
    by (simp add: sE_def resample_data_series td0 selE ser0 RE_def [symmetric]
        merge_series_def trim_series_def)
  have ser1: "resampled_data s1 TF_1s = drop 1 RB"
    using neB trim_after_merge(1) [OF d lenE lenB]
    by (simp add: s1_def resample_data_series tdE selB serE RB_def [symmetric])
  have ser2: "resampled_data s2 TF_1s = RB"
    using neB trim_after_merge(2) [OF d lenE lenB]
    by (simp add: s2_def resample_data_series td1 selB ser1 RB_def [symmetric])
  have "length (resampled_data s2 TF_1s) \<noteq> length (resampled_data s1 TF_1s)"
    by (simp add: ser1 ser2 lenB)
  then have "resampled_data s2 TF_1s \<noteq> resampled_data s1 TF_1s" by auto
  then show ?thesis
    by (simp add: s2_def s1_def sE_def s0_def e0_def e1_def b0_def b1_def)
qed

end
